theory Spec2Isabelle
  imports Main
begin

section \<open>The dot-file writer of \<^verbatim>\<open>PyPI/visualizations/graphviz_output.py\<close>\<close>

text \<open>
  The module reads two tables (packages and dependencies) and writes a GraphViz
  description of the dependency graph. Everything with logic in it is the function
  \<^verbatim>\<open>create_graphviz\<close>; this theory embeds it statement by statement.

  \<^item> A row of \<^verbatim>\<open>packages\<close> is a dict with the keys \<^verbatim>\<open>id\<close> and \<^verbatim>\<open>name\<close>, a row of
    \<^verbatim>\<open>dependencies\<close> a dict with the keys \<^verbatim>\<open>package\<close>, \<^verbatim>\<open>needs_package\<close> and
    \<^verbatim>\<open>times\<close>: two records. Ids and counts are Python integers, hence \<open>int\<close>.
  \<^item> The parameter \<^verbatim>\<open>n\<close> is an integer or \<^verbatim>\<open>None\<close>: an \<open>int option\<close>.
  \<^item> Every \<^verbatim>\<open>for\<close> loop is a recursive function over the list it iterates, carrying
    the variable the loop mutates (a set, a dict, a list that is appended to).
  \<^item> The file object is modelled by the list of the arguments of the successive
    \<^verbatim>\<open>f.write\<close> calls. Opening with mode \<^verbatim>\<open>"w"\<close> starts from the empty content,
    each write appends, and the result is stored under the file name in a map from
    paths to contents.
  \<^item> A line of the output is one such argument. (A package name is copied as it is,
    so a name that holds a line break spreads its node statement over several lines of
    text; the statement is still one write.)
  \<^item> The progress bars write to the standard error stream only, and are left out. So
    are the calls of \<^verbatim>\<open>logging.info\<close> in the definitions the properties of the written
    lines are stated on; the last definition, of a whole run, has them, together with
    what a run takes from its surroundings: the clock and the order in which the
    interpreter keeps the elements of a set.
\<close>

subsection \<open>Rows\<close>

record pkg =
  pkg_id :: int
  pkg_name :: string

record dep =
  dep_package :: int
  dep_needs_package :: int
  dep_times :: int

subsection \<open>Formatting an integer in an f-string\<close>

text \<open>\<^verbatim>\<open>f"{i}"\<close> is \<^verbatim>\<open>str(i)\<close>: the decimal digits, most significant first, after
  a minus sign when \<open>i\<close> is negative.\<close>

definition digit_char :: "nat \<Rightarrow> char" where
  "digit_char d = char_of (48 + d)"

function str_nat :: "nat \<Rightarrow> string" where
  "str_nat n = (if n < 10 then [digit_char n] else str_nat (n div 10) @ [digit_char (n mod 10)])"
  by pat_completeness auto
termination
  by (relation "measure (\<lambda>n. n)") auto

declare str_nat.simps [simp del]

definition str_int :: "int \<Rightarrow> string" where
  "str_int i = (if i < 0 then CHR ''-'' # str_nat (nat (- i)) else str_nat (nat i))"

subsection \<open>The slice \<^verbatim>\<open>xs[:n]\<close>\<close>

text \<open>With \<^verbatim>\<open>None\<close> the slice is the whole list; with \<open>n \<ge> 0\<close> its first \<open>n\<close>
  elements; with \<open>n < 0\<close> all but its last \<open>-n\<close> elements.\<close>

definition py_slice_upto :: "'a list \<Rightarrow> int option \<Rightarrow> 'a list" where
  "py_slice_upto xs n =
     (case n of
        None \<Rightarrow> xs
      | Some k \<Rightarrow> if 0 \<le> k then take (nat k) xs else take (nat (int (length xs) + k)) xs)"

subsection \<open>Lines 84 to 97: packages that occur in some dependency\<close>

text \<open>\<^verbatim>\<open>for dep in dependencies: save_nodes.add(dep["needs_package"]); save_nodes.add(dep["package"])\<close>\<close>

fun save_nodes_loop :: "dep list \<Rightarrow> int set \<Rightarrow> int set" where
  "save_nodes_loop [] save_nodes = save_nodes"
| "save_nodes_loop (d # deps) save_nodes =
     save_nodes_loop deps (insert (dep_package d) (insert (dep_needs_package d) save_nodes))"

text \<open>\<^verbatim>\<open>for pkg in packages: if pkg["id"] in save_nodes: new_pkgs.append(pkg)\<close>\<close>

fun keep_saved_loop :: "int set \<Rightarrow> pkg list \<Rightarrow> pkg list \<Rightarrow> pkg list" where
  "keep_saved_loop save_nodes [] new_pkgs = new_pkgs"
| "keep_saved_loop save_nodes (p # pkgs) new_pkgs =
     (if pkg_id p \<in> save_nodes then keep_saved_loop save_nodes pkgs (new_pkgs @ [p])
      else keep_saved_loop save_nodes pkgs new_pkgs)"

subsection \<open>Lines 99 to 114: packages that import something else than themselves\<close>

text \<open>The dict \<^verbatim>\<open>has_dependency\<close> maps a package id to the list of the other packages
  it needs; a self-dependency is skipped by \<^verbatim>\<open>continue\<close>.\<close>

fun has_dependency_loop :: "dep list \<Rightarrow> (int \<rightharpoonup> int list) \<Rightarrow> (int \<rightharpoonup> int list)" where
  "has_dependency_loop [] has_dependency = has_dependency"
| "has_dependency_loop (d # deps) has_dependency =
     (if dep_package d = dep_needs_package d then has_dependency_loop deps has_dependency
      else (case has_dependency (dep_package d) of
              Some needed \<Rightarrow>
                has_dependency_loop deps
                  (has_dependency(dep_package d \<mapsto> needed @ [dep_needs_package d]))
            | None \<Rightarrow>
                has_dependency_loop deps
                  (has_dependency(dep_package d \<mapsto> [dep_needs_package d]))))"

text \<open>\<^verbatim>\<open>pkg["id"] in has_dependency and len(has_dependency[pkg["id"]]) >= 1\<close>\<close>

definition has_entry :: "(int \<rightharpoonup> int list) \<Rightarrow> int \<Rightarrow> bool" where
  "has_entry has_dependency i =
     (case has_dependency i of None \<Rightarrow> False | Some needed \<Rightarrow> 1 \<le> length needed)"

fun keep_importing_loop :: "(int \<rightharpoonup> int list) \<Rightarrow> pkg list \<Rightarrow> pkg list \<Rightarrow> pkg list" where
  "keep_importing_loop has_dependency [] new_pkgs = new_pkgs"
| "keep_importing_loop has_dependency (p # pkgs) new_pkgs =
     (if has_entry has_dependency (pkg_id p)
      then keep_importing_loop has_dependency pkgs (new_pkgs @ [p])
      else keep_importing_loop has_dependency pkgs new_pkgs)"

subsection \<open>Lines 84 to 116: the packages that are left\<close>

definition remove_no_edge_step :: "pkg list \<Rightarrow> dep list \<Rightarrow> bool \<Rightarrow> bool \<Rightarrow> pkg list" where
  "remove_no_edge_step packages dependencies remove_no_edge remove_only_selfimport =
     (if remove_no_edge \<or> remove_only_selfimport
      then keep_saved_loop (save_nodes_loop dependencies {}) packages []
      else packages)"

definition remove_only_selfimport_step :: "pkg list \<Rightarrow> dep list \<Rightarrow> bool \<Rightarrow> pkg list" where
  "remove_only_selfimport_step packages dependencies remove_only_selfimport =
     (if remove_only_selfimport
      then keep_importing_loop (has_dependency_loop dependencies Map.empty) packages []
      else packages)"

text \<open>The value of \<^verbatim>\<open>packages\<close> when line 115 logs how many remain.\<close>

definition remaining_packages :: "pkg list \<Rightarrow> dep list \<Rightarrow> bool \<Rightarrow> bool \<Rightarrow> pkg list" where
  "remaining_packages packages dependencies remove_no_edge remove_only_selfimport =
     remove_only_selfimport_step
       (remove_no_edge_step packages dependencies remove_no_edge remove_only_selfimport)
       dependencies remove_only_selfimport"

text \<open>Line 116, \<^verbatim>\<open>packages = packages[:n]\<close>.\<close>

definition truncated_packages ::
  "pkg list \<Rightarrow> dep list \<Rightarrow> int option \<Rightarrow> bool \<Rightarrow> bool \<Rightarrow> pkg list" where
  "truncated_packages packages dependencies n remove_no_edge remove_only_selfimport =
     py_slice_upto
       (remaining_packages packages dependencies remove_no_edge remove_only_selfimport) n"

subsection \<open>Lines 118 to 135: the writes\<close>

definition header_line :: string where
  "header_line = ''digraph python_package_dependencies {\<newline>''"

definition footer_line :: string where
  "footer_line = ''}''"

text \<open>\<^verbatim>\<open>f'{pkg["id"]} [shape=point, label="{pkg["name"]}"];\n'\<close>\<close>

definition node_line :: "int \<Rightarrow> string \<Rightarrow> string" where
  \<open>node_line i nm = str_int i @ '' [shape=point, label="'' @ nm @ ''"];\<newline>''\<close>

text \<open>\<^verbatim>\<open>f"{dep['needs_package']} -> {dep['package']};\n"\<close>, as a function of the two
  integers in the order in which they are printed.\<close>

definition edge_line :: "int \<Rightarrow> int \<Rightarrow> string" where
  "edge_line a b = str_int a @ '' -> '' @ str_int b @ '';\<newline>''"

text \<open>The loop of lines 125 to 128 writes a line and appends to \<^verbatim>\<open>pkg_ids\<close>; its state
  is the pair of what was written so far and \<^verbatim>\<open>pkg_ids\<close>.\<close>

fun write_nodes_loop :: "pkg list \<Rightarrow> string list \<times> int list \<Rightarrow> string list \<times> int list" where
  "write_nodes_loop [] st = st"
| "write_nodes_loop (p # pkgs) (written, pkg_ids) =
     write_nodes_loop pkgs
       (written @ [node_line (pkg_id p) (pkg_name p)], pkg_ids @ [pkg_id p])"

text \<open>The loop of lines 132 to 134, over all dependencies.\<close>

fun write_edges_loop :: "int set \<Rightarrow> dep list \<Rightarrow> string list \<Rightarrow> string list" where
  "write_edges_loop pkg_ids [] written = written"
| "write_edges_loop pkg_ids (d # deps) written =
     (if dep_needs_package d \<in> pkg_ids \<and> dep_package d \<in> pkg_ids
      then write_edges_loop pkg_ids deps
             (written @ [edge_line (dep_needs_package d) (dep_package d)])
      else write_edges_loop pkg_ids deps written)"

text \<open>The list the node loop iterates over: \<^verbatim>\<open>packages[:n]\<close> at line 125, where
  \<^verbatim>\<open>packages\<close> was already cut to \<^verbatim>\<open>packages[:n]\<close> at line 116.\<close>

definition emitted_packages ::
  "pkg list \<Rightarrow> dep list \<Rightarrow> int option \<Rightarrow> bool \<Rightarrow> bool \<Rightarrow> pkg list" where
  "emitted_packages packages dependencies n remove_no_edge remove_only_selfimport =
     py_slice_upto
       (truncated_packages packages dependencies n remove_no_edge remove_only_selfimport) n"

text \<open>The arguments of the \<^verbatim>\<open>f.write\<close> calls of one run, in order.\<close>

definition create_graphviz_writes ::
  "pkg list \<Rightarrow> dep list \<Rightarrow> int option \<Rightarrow> bool \<Rightarrow> bool \<Rightarrow> string list" where
  "create_graphviz_writes packages dependencies n remove_no_edge remove_only_selfimport =
     (let (written, pkg_ids) =
            write_nodes_loop
              (emitted_packages packages dependencies n remove_no_edge remove_only_selfimport)
              ([header_line], []);
          written1 = write_edges_loop (set pkg_ids) dependencies written
      in written1 @ [footer_line])"

text \<open>\<^verbatim>\<open>open(filename, "w")\<close> creates the file or empties it, each \<^verbatim>\<open>f.write\<close> appends
  its argument, and when the \<^verbatim>\<open>with\<close> block is left the file holds what was written.
  The files of the machine are a map from paths to contents.\<close>

type_synonym files = "string \<rightharpoonup> string"

definition create_graphviz ::
  "string \<Rightarrow> pkg list \<Rightarrow> dep list \<Rightarrow> int option \<Rightarrow> bool \<Rightarrow> bool \<Rightarrow> files \<Rightarrow> files" where
  "create_graphviz filename packages dependencies n remove_no_edge remove_only_selfimport fs =
     fs(filename \<mapsto>
        foldl (\<lambda>content s. content @ s) []
          (create_graphviz_writes packages dependencies n remove_no_edge
             remove_only_selfimport))"

subsection \<open>A run in its surroundings\<close>

text \<open>
  Two things reach a run from outside its arguments. The log format of line 16 starts
  with \<^verbatim>\<open>%(asctime)s\<close>, the time of the call. And a Python \<^verbatim>\<open>set\<close> keeps its elements
  in an order of the interpreter's choosing, which shows whenever a set is iterated.
  Both are fields of the surroundings \<open>env\<close>: \<open>asctime e k\<close> is the time text when
  the standard output holds \<open>k\<close> lines, and \<open>slot e x tbl\<close> is the position at which
  the new element \<open>x\<close> enters the table \<open>tbl\<close> of a set.
\<close>

record env =
  slot :: "int \<Rightarrow> int list \<Rightarrow> nat"
  asctime :: "nat \<Rightarrow> string"

text \<open>\<^verbatim>\<open>s.add(x)\<close> on the table of the set: nothing when \<open>x\<close> is there, else \<open>x\<close>
  enters at its slot. \<^verbatim>\<open>x in s\<close> is \<open>x \<in> set tbl\<close>, and \<^verbatim>\<open>len(s)\<close> is \<open>length tbl\<close>.\<close>

definition pyset_add :: "env \<Rightarrow> int \<Rightarrow> int list \<Rightarrow> int list" where
  "pyset_add e x tbl =
     (if x \<in> set tbl then tbl
      else take (slot e x tbl) tbl @ x # drop (slot e x tbl) tbl)"

text \<open>\<^verbatim>\<open>set(xs)\<close> adds the elements of the list one after the other.\<close>

fun pyset_of :: "env \<Rightarrow> int list \<Rightarrow> int list \<Rightarrow> int list" where
  "pyset_of e [] tbl = tbl"
| "pyset_of e (x # xs) tbl = pyset_of e xs (pyset_add e x tbl)"

text \<open>The loop of lines 86 to 88 on the table of \<^verbatim>\<open>save_nodes\<close>.\<close>

fun save_nodes_table :: "env \<Rightarrow> dep list \<Rightarrow> int list \<Rightarrow> int list" where
  "save_nodes_table e [] save_nodes = save_nodes"
| "save_nodes_table e (d # deps) save_nodes =
     save_nodes_table e deps
       (pyset_add e (dep_package d) (pyset_add e (dep_needs_package d) save_nodes))"

text \<open>\<^verbatim>\<open>logging.info(msg)\<close> with the format \<^verbatim>\<open>"%(asctime)s %(levelname)s %(message)s"\<close>
  appends one line to the standard output.\<close>

definition logging_info :: "env \<Rightarrow> string list \<Rightarrow> string \<Rightarrow> string list" where
  "logging_info e out msg = out @ [asctime e (length out) @ '' INFO '' @ msg @ ''\<newline>'']"

text \<open>The whole of \<^verbatim>\<open>create_graphviz\<close>, lines 84 to 135, on the files and the lines of
  the standard output.\<close>

definition create_graphviz_run ::
  "env \<Rightarrow> string \<Rightarrow> pkg list \<Rightarrow> dep list \<Rightarrow> int option \<Rightarrow> bool \<Rightarrow> bool \<Rightarrow>
     files \<times> string list \<Rightarrow> files \<times> string list" where
  "create_graphviz_run e filename packages dependencies n remove_no_edge remove_only_selfimport
     world =
     (let (fs, out) = world;
          (packages1, out1) =
            (if remove_no_edge \<or> remove_only_selfimport
             then let save_nodes = save_nodes_table e dependencies [];
                      out' = logging_info e out
                        (''Imported graph had '' @ str_int (int (length packages)) @
                         '' nodes. Only '' @ str_int (int (length save_nodes)) @
                         '' of them have edges.'')
                  in (keep_saved_loop (set save_nodes) packages [], out')
             else (packages, out));
          (packages2, out2) =
            (if remove_only_selfimport
             then let has_dependency = has_dependency_loop dependencies Map.empty;
                      out' = logging_info e out1
                        ''Remove packages which only import themselves.''
                  in (keep_importing_loop has_dependency packages1 [], out')
             else (packages1, out1));
          out3 = logging_info e out2
            (str_int (int (length packages2)) @ '' packages remaining'');
          packages3 = py_slice_upto packages2 n;
          (written, pkg_ids) =
            write_nodes_loop (py_slice_upto packages3 n) ([header_line], []);
          pkg_ids1 = pyset_of e pkg_ids [];
          written1 = write_edges_loop (set pkg_ids1) dependencies written
      in (fs(filename \<mapsto> foldl (\<lambda>content s. content @ s) [] (written1 @ [footer_line])),
          out3))"

subsection \<open>Vocabulary of the properties\<close>

text \<open>A written string is a node line when it is the node statement of some id and
  name, and an edge line when it is the edge statement of some pair of ids.\<close>

definition is_node_line :: "string \<Rightarrow> bool" where
  "is_node_line l \<longleftrightarrow> (\<exists>i nm. l = node_line i nm)"

definition is_edge_line :: "string \<Rightarrow> bool" where
  "is_edge_line l \<longleftrightarrow> (\<exists>a b. l = edge_line a b)"

text \<open>The number a string of decimal digits denotes; it reads back what \<open>str_nat\<close>
  prints.\<close>

definition digits_value :: "string \<Rightarrow> nat" where
  "digits_value s = foldl (\<lambda>a c. 10 * a + (of_char c - 48)) 0 s"

text \<open>The pruning rules as the specification words them, for comparison with the code:
  connectivity pruning keeps the packages whose id is the source or the target of some
  dependency; self-import-only pruning keeps the packages with at least one dependency
  on another package; each is applied when its own flag is set, connectivity first.\<close>

definition connectivity_pruning_spec :: "pkg list \<Rightarrow> dep list \<Rightarrow> pkg list" where
  "connectivity_pruning_spec packages dependencies =
     filter (\<lambda>p. \<exists>d \<in> set dependencies. dep_package d = pkg_id p \<or> dep_needs_package d = pkg_id p)
       packages"

definition self_import_only_pruning_spec :: "pkg list \<Rightarrow> dep list \<Rightarrow> pkg list" where
  "self_import_only_pruning_spec packages dependencies =
     filter (\<lambda>p. \<exists>d \<in> set dependencies. dep_package d = pkg_id p \<and> dep_needs_package d \<noteq> pkg_id p)
       packages"

definition graph_filter_spec :: "pkg list \<Rightarrow> dep list \<Rightarrow> bool \<Rightarrow> bool \<Rightarrow> pkg list" where
  "graph_filter_spec packages dependencies removeDisconnected removeSelfImportOnly =
     (let packages1 = (if removeDisconnected
                       then connectivity_pruning_spec packages dependencies else packages)
      in if removeSelfImportOnly
         then self_import_only_pruning_spec packages1 dependencies else packages1)"

subsection \<open>The example of the specification\<close>

text \<open>Three packages; package 1 needs package 2 (seen 5 times), package 3 needs itself.\<close>

definition example_packages :: "pkg list" where
  "example_packages =
     [\<lparr>pkg_id = 1, pkg_name = ''a''\<rparr>, \<lparr>pkg_id = 2, pkg_name = ''b''\<rparr>,
      \<lparr>pkg_id = 3, pkg_name = ''c''\<rparr>]"

definition example_dependencies :: "dep list" where
  "example_dependencies =
     [\<lparr>dep_package = 1, dep_needs_package = 2, dep_times = 5\<rparr>,
      \<lparr>dep_package = 3, dep_needs_package = 3, dep_times = 1\<rparr>]"

text \<open>Two surroundings: one puts a new element of a set first, the other last, and
  their clocks differ.\<close>

definition env_first :: env where
  "env_first = \<lparr>slot = (\<lambda>x tbl. 0), asctime = (\<lambda>k. ''2019-01-01 10:00:00,000'')\<rparr>"

definition env_last :: env where
  "env_last = \<lparr>slot = (\<lambda>x tbl. length tbl), asctime = (\<lambda>k. ''2019-01-02 11:30:00,000'')\<rparr>"

section \<open>Auxiliary facts\<close>

subsection \<open>Printed integers\<close>

lemma digit_char_simps:
  "digit_char 0 = CHR ''0''" "digit_char 1 = CHR ''1''" "digit_char 2 = CHR ''2''"
  "digit_char 3 = CHR ''3''" "digit_char 4 = CHR ''4''" "digit_char 5 = CHR ''5''"
  "digit_char 6 = CHR ''6''" "digit_char 7 = CHR ''7''" "digit_char 8 = CHR ''8''"
  "digit_char 9 = CHR ''9''"
  by (code_simp, code_simp, code_simp, code_simp, code_simp, code_simp, code_simp, code_simp, code_simp, code_simp)

lemma split_at_char:
  "s \<notin> set xs \<Longrightarrow> s \<notin> set ys \<Longrightarrow> xs @ s # us = ys @ s # vs \<Longrightarrow> xs = ys \<and> us = vs"
proof (induction xs arbitrary: ys)
  case Nil
  then show ?case by (cases ys) auto
next
  case (Cons x xs)
  then show ?case by (cases ys) auto
qed


lemma of_char_digit_char: "d < 10 \<Longrightarrow> of_char (digit_char d) = 48 + d"
  by (simp add: digit_char_def)

lemma digit_char_neq:
  assumes "d < 10"
  shows "digit_char d \<noteq> CHR ''-''" and "digit_char d \<noteq> CHR '' ''"
proof -
  have "of_char (digit_char d) = 48 + d" using assms by (rule of_char_digit_char)
  moreover have "of_char (CHR ''-'') = (45::nat)" "of_char (CHR '' '') = (32::nat)" by simp_all
  ultimately show "digit_char d \<noteq> CHR ''-''" and "digit_char d \<noteq> CHR '' ''" by auto
qed

lemma str_nat_chars: "c \<in> set (str_nat n) \<Longrightarrow> \<exists>d<10. c = digit_char d"
proof (induction n rule: str_nat.induct)
  case (1 n)
  show ?case
  proof (cases "n < 10")
    case True
    with "1.prems" show ?thesis by (auto simp: str_nat.simps [of n])
  next
    case False
    with "1.prems" have "c \<in> set (str_nat (n div 10)) \<or> c = digit_char (n mod 10)"
      by (auto simp: str_nat.simps [of n])
    then show ?thesis
    proof
      assume "c \<in> set (str_nat (n div 10))"
      with False "1.IH" show ?thesis by simp
    next
      assume "c = digit_char (n mod 10)"
      moreover have "n mod 10 < 10" by simp
      ultimately show ?thesis by blast
    qed
  qed
qed

lemma digits_value_str_nat: "digits_value (str_nat n) = n"
proof (induction n rule: str_nat.induct)
  case (1 n)
  show ?case
  proof (cases "n < 10")
    case True
    then show ?thesis
      by (simp add: str_nat.simps [of n] digits_value_def of_char_digit_char)
  next
    case False
    then have "digits_value (str_nat n) = 10 * digits_value (str_nat (n div 10)) + n mod 10"
      by (simp add: str_nat.simps [of n] digits_value_def of_char_digit_char)
    with False "1.IH" show ?thesis by simp
  qed
qed

lemma str_nat_inj: "str_nat m = str_nat n \<Longrightarrow> m = n"
  by (metis digits_value_str_nat)

lemma minus_notin_str_nat: "CHR ''-'' \<notin> set (str_nat n)"
  using str_nat_chars digit_char_neq by metis

lemma space_notin_str_nat: "CHR '' '' \<notin> set (str_nat n)"
  using str_nat_chars digit_char_neq by metis

lemma space_notin_str_int: "CHR '' '' \<notin> set (str_int i)"
  by (simp add: str_int_def space_notin_str_nat)

lemma str_int_inj: "str_int i = str_int j \<Longrightarrow> i = j"
proof -
  assume eq: "str_int i = str_int j"
  have neg: "CHR ''-'' # str_nat m \<noteq> str_nat k" for m k
    using minus_notin_str_nat [of k] by (metis list.set_intros(1))
  show "i = j"
  proof (cases "i < 0")
    case True
    show ?thesis
    proof (cases "j < 0")
      case True
      with \<open>i < 0\<close> eq have "nat (- i) = nat (- j)" by (simp add: str_int_def str_nat_inj)
      with True \<open>i < 0\<close> show ?thesis by simp
    next
      case False
      with \<open>i < 0\<close> eq neg show ?thesis by (simp add: str_int_def)
    qed
  next
    case False
    show ?thesis
    proof (cases "j < 0")
      case True
      with False eq neg [of "nat (- j)" "nat i"] show ?thesis by (simp add: str_int_def)
    next
      case False
      with \<open>\<not> i < 0\<close> eq have "nat i = nat j" by (simp add: str_int_def str_nat_inj)
      with False \<open>\<not> i < 0\<close> show ?thesis by simp
    qed
  qed
qed

lemma edge_line_inj: "edge_line a b = edge_line c d \<Longrightarrow> a = c \<and> b = d"
proof -
  assume "edge_line a b = edge_line c d"
  then have "str_int a @ CHR '' '' # (''-> '' @ str_int b @ '';\<newline>'')
           = str_int c @ CHR '' '' # (''-> '' @ str_int d @ '';\<newline>'')"
    by (simp add: edge_line_def)
  then have "str_int a = str_int c \<and> ''-> '' @ str_int b @ '';\<newline>'' = ''-> '' @ str_int d @ '';\<newline>''"
    using split_at_char [OF space_notin_str_int space_notin_str_int] by blast
  then show ?thesis by (simp add: str_int_inj)
qed

lemma node_line_inj: "node_line i nm = node_line j nm' \<Longrightarrow> i = j \<and> nm = nm'"
proof -
  assume "node_line i nm = node_line j nm'"
  then have \<open>str_int i @ CHR '' '' # (''[shape=point, label="'' @ nm @ ''"];\<newline>'')
           = str_int j @ CHR '' '' # (''[shape=point, label="'' @ nm' @ ''"];\<newline>'')\<close>
    by (simp add: node_line_def)
  then have \<open>str_int i = str_int j \<and> ''[shape=point, label="'' @ nm @ ''"];\<newline>'' = ''[shape=point, label="'' @ nm' @ ''"];\<newline>''\<close>
    using split_at_char [OF space_notin_str_int space_notin_str_int] by blast
  then show ?thesis by (simp add: str_int_inj)
qed

lemma node_line_neq_edge_line: "node_line i nm \<noteq> edge_line a b"
proof
  assume "node_line i nm = edge_line a b"
  then have \<open>str_int i @ CHR '' '' # (''[shape=point, label="'' @ nm @ ''"];\<newline>'')
           = str_int a @ CHR '' '' # (''-> '' @ str_int b @ '';\<newline>'')\<close>
    by (simp add: node_line_def edge_line_def)
  then have \<open>''[shape=point, label="'' @ nm @ ''"];\<newline>'' = ''-> '' @ str_int b @ '';\<newline>''\<close>
    using split_at_char [OF space_notin_str_int space_notin_str_int] by blast
  then show False by simp
qed

lemma str_nat_not_Nil: "str_nat n \<noteq> []"
  by (subst str_nat.simps) simp

lemma header_line_neq_edge_line: "header_line \<noteq> edge_line a b"
proof
  assume "header_line = edge_line a b"
  then have "''digraph'' @ CHR '' '' # ''python_package_dependencies {\<newline>''
    = str_int a @ CHR '' '' # (''-> '' @ str_int b @ '';\<newline>'')"
    by (simp add: header_line_def edge_line_def)
  moreover have "CHR '' '' \<notin> set ''digraph''" by simp
  ultimately have "''python_package_dependencies {\<newline>'' = ''-> '' @ str_int b @ '';\<newline>''"
    using split_at_char [OF _ space_notin_str_int] by blast
  then show False by simp
qed

lemma footer_line_neq_edge_line: "footer_line \<noteq> edge_line a b"
proof
  assume "footer_line = edge_line a b"
  then have "length footer_line = length (edge_line a b)" by simp
  then show False by (simp add: footer_line_def edge_line_def)
qed

lemma header_line_neq_node_line: "header_line \<noteq> node_line i nm"
proof
  assume "header_line = node_line i nm"
  then have \<open>''digraph'' @ CHR '' '' # ''python_package_dependencies {\<newline>''
    = str_int i @ CHR '' '' # (''[shape=point, label="'' @ nm @ ''"];\<newline>'')\<close>
    by (simp add: header_line_def node_line_def)
  moreover have "CHR '' '' \<notin> set ''digraph''" by simp
  ultimately have \<open>''python_package_dependencies {\<newline>'' = ''[shape=point, label="'' @ nm @ ''"];\<newline>''\<close>
    using split_at_char [OF _ space_notin_str_int] by blast
  then show False by simp
qed

lemma footer_line_neq_node_line: "footer_line \<noteq> node_line i nm"
proof
  assume "footer_line = node_line i nm"
  then have "length footer_line = length (node_line i nm)" by simp
  then show False by (simp add: footer_line_def node_line_def)
qed

subsection \<open>The loops in closed form\<close>

lemma save_nodes_loop_eq:
  "save_nodes_loop deps S = S \<union> dep_package ` set deps \<union> dep_needs_package ` set deps"
  by (induction deps arbitrary: S) auto

lemma keep_saved_loop_eq:
  "keep_saved_loop S pkgs acc = acc @ filter (\<lambda>p. pkg_id p \<in> S) pkgs"
  by (induction pkgs arbitrary: acc) auto

lemma keep_importing_loop_eq:
  "keep_importing_loop h pkgs acc = acc @ filter (\<lambda>p. has_entry h (pkg_id p)) pkgs"
  by (induction pkgs arbitrary: acc) auto

lemma has_entry_empty: "\<not> has_entry Map.empty i"
  by (simp add: has_entry_def)

lemma has_entry_upd:
  "needed \<noteq> [] \<Longrightarrow> has_entry (h(k \<mapsto> needed)) i \<longleftrightarrow> (if i = k then True else has_entry h i)"
  by (cases needed) (simp_all add: has_entry_def)

lemma has_entry_has_dependency_loop:
  "has_entry (has_dependency_loop deps h) i \<longleftrightarrow>
     has_entry h i \<or> (\<exists>d \<in> set deps. dep_package d = i \<and> dep_needs_package d \<noteq> i)"
proof (induction deps arbitrary: h)
  case Nil
  show ?case by simp
next
  case (Cons d deps)
  show ?case
  proof (cases "dep_package d = dep_needs_package d")
    case True
    then have "has_dependency_loop (d # deps) h = has_dependency_loop deps h" by simp
    moreover have "has_entry (has_dependency_loop deps h) i \<longleftrightarrow>
        has_entry h i \<or> (\<exists>d \<in> set deps. dep_package d = i \<and> dep_needs_package d \<noteq> i)"
      by (rule Cons.IH)
    ultimately show ?thesis using True by auto
  next
    case False
    define needed where
      "needed = (case h (dep_package d) of Some l \<Rightarrow> l @ [dep_needs_package d]
                 | None \<Rightarrow> [dep_needs_package d])"
    define h' where "h' = h(dep_package d \<mapsto> needed)"
    have nonempty: "needed \<noteq> []"
      by (simp add: needed_def split: option.split)
    have step: "has_dependency_loop (d # deps) h = has_dependency_loop deps h'"
      using False by (simp add: h'_def needed_def split: option.split)
    have new: "has_entry h' i \<longleftrightarrow> (if i = dep_package d then True else has_entry h i)"
      unfolding h'_def using nonempty by (rule has_entry_upd)
    have old: "has_entry h i \<Longrightarrow> has_entry h' i"
      using new by (simp split: if_splits)
    have "has_entry (has_dependency_loop deps h') i \<longleftrightarrow>
        has_entry h' i \<or> (\<exists>d \<in> set deps. dep_package d = i \<and> dep_needs_package d \<noteq> i)"
      by (rule Cons.IH)
    then have "has_entry (has_dependency_loop (d # deps) h) i \<longleftrightarrow>
        has_entry h' i \<or> (\<exists>d \<in> set deps. dep_package d = i \<and> dep_needs_package d \<noteq> i)"
      by (simp only: step)
    also have "\<dots> \<longleftrightarrow>
        has_entry h i \<or> (\<exists>d \<in> set (d # deps). dep_package d = i \<and> dep_needs_package d \<noteq> i)"
      using new False by auto
    finally show ?thesis .
  qed
qed

lemma write_nodes_loop_eq:
  "write_nodes_loop pkgs (written, ids) =
     (written @ map (\<lambda>p. node_line (pkg_id p) (pkg_name p)) pkgs, ids @ map pkg_id pkgs)"
  by (induction pkgs arbitrary: written ids) auto

lemma write_edges_loop_eq:
  "write_edges_loop S deps written =
     written @ map (\<lambda>d. edge_line (dep_needs_package d) (dep_package d))
                 (filter (\<lambda>d. dep_needs_package d \<in> S \<and> dep_package d \<in> S) deps)"
  by (induction deps arbitrary: written) auto

lemma in_save_nodes_loop_iff:
  "i \<in> save_nodes_loop D {} \<longleftrightarrow>
     (\<exists>d \<in> set D. dep_package d = i \<or> dep_needs_package d = i)"
proof -
  have "i \<in> save_nodes_loop D {} \<longleftrightarrow> i \<in> dep_package ` set D \<union> dep_needs_package ` set D"
    by (simp add: save_nodes_loop_eq)
  also have "\<dots> \<longleftrightarrow> (\<exists>d \<in> set D. dep_package d = i \<or> dep_needs_package d = i)"
    unfolding Un_iff image_iff by metis
  finally show ?thesis .
qed

lemma remove_no_edge_step_eq:
  "remove_no_edge_step P D r s =
     (if r \<or> s
      then filter (\<lambda>p. \<exists>d \<in> set D. dep_package d = pkg_id p \<or> dep_needs_package d = pkg_id p) P
      else P)"
  by (simp add: remove_no_edge_step_def keep_saved_loop_eq in_save_nodes_loop_iff)

lemma remove_only_selfimport_step_eq:
  "remove_only_selfimport_step P D s =
     (if s
      then filter (\<lambda>p. \<exists>d \<in> set D. dep_package d = pkg_id p \<and> dep_needs_package d \<noteq> pkg_id p) P
      else P)"
  by (simp add: remove_only_selfimport_step_def keep_importing_loop_eq
      has_entry_has_dependency_loop has_entry_empty)

lemma create_graphviz_writes_eq:
  "create_graphviz_writes P D n r s =
     header_line #
     map (\<lambda>p. node_line (pkg_id p) (pkg_name p)) (emitted_packages P D n r s) @
     map (\<lambda>d. edge_line (dep_needs_package d) (dep_package d))
       (filter (\<lambda>d. dep_needs_package d \<in> pkg_id ` set (emitted_packages P D n r s) \<and>
                     dep_package d \<in> pkg_id ` set (emitted_packages P D n r s)) D) @
     [footer_line]"
  by (simp add: create_graphviz_writes_def write_nodes_loop_eq write_edges_loop_eq)

lemma py_slice_upto_None: "py_slice_upto xs None = xs"
  by (simp add: py_slice_upto_def)

lemma py_slice_upto_nonneg: "0 \<le> k \<Longrightarrow> py_slice_upto xs (Some k) = take (nat k) xs"
  by (simp add: py_slice_upto_def)

lemma set_py_slice_upto: "set (py_slice_upto xs n) \<subseteq> set xs"
  by (auto simp: py_slice_upto_def split: option.splits dest: in_set_takeD)

lemma foldl_append_concat: "foldl (\<lambda>content s. content @ s) acc ws = acc @ concat ws"
  by (induction ws arbitrary: acc) auto

lemma not_is_node_line: "\<not> is_node_line header_line" "\<not> is_node_line footer_line"
  "\<not> is_node_line (edge_line a b)"
  using header_line_neq_node_line footer_line_neq_node_line node_line_neq_edge_line
  by (auto simp: is_node_line_def) metis+

lemma not_is_edge_line: "\<not> is_edge_line header_line" "\<not> is_edge_line footer_line"
  "\<not> is_edge_line (node_line i nm)"
  using header_line_neq_edge_line footer_line_neq_edge_line node_line_neq_edge_line
  by (auto simp: is_edge_line_def)

lemma is_node_line_node_line: "is_node_line (node_line i nm)"
  by (auto simp: is_node_line_def)

lemma is_edge_line_edge_line: "is_edge_line (edge_line a b)"
  by (auto simp: is_edge_line_def)

lemma filter_is_node_line_nodes:
  "filter is_node_line (map (\<lambda>p. node_line (pkg_id p) (pkg_name p)) ps) =
     map (\<lambda>p. node_line (pkg_id p) (pkg_name p)) ps"
  by (induction ps) (simp_all add: is_node_line_node_line)

lemma filter_is_node_line_edges:
  "filter is_node_line (map (\<lambda>d. edge_line (dep_needs_package d) (dep_package d)) ds) = []"
  by (induction ds) (simp_all add: not_is_node_line)

lemma filter_is_edge_line_nodes:
  "filter is_edge_line (map (\<lambda>p. node_line (pkg_id p) (pkg_name p)) ps) = []"
  by (induction ps) (simp_all add: not_is_edge_line)

lemma filter_is_edge_line_edges:
  "filter is_edge_line (map (\<lambda>d. edge_line (dep_needs_package d) (dep_package d)) ds) =
     map (\<lambda>d. edge_line (dep_needs_package d) (dep_package d)) ds"
  by (induction ds) (simp_all add: is_edge_line_edge_line)

lemma filter_is_node_line_writes:
  "filter is_node_line (create_graphviz_writes P D n r s) =
     map (\<lambda>p. node_line (pkg_id p) (pkg_name p)) (emitted_packages P D n r s)"
  by (simp add: create_graphviz_writes_eq not_is_node_line filter_is_node_line_nodes
      filter_is_node_line_edges)

lemma filter_is_edge_line_writes:
  "filter is_edge_line (create_graphviz_writes P D n r s) =
     map (\<lambda>d. edge_line (dep_needs_package d) (dep_package d))
       (filter (\<lambda>d. dep_needs_package d \<in> pkg_id ` set (emitted_packages P D n r s) \<and>
                     dep_package d \<in> pkg_id ` set (emitted_packages P D n r s)) D)"
  by (simp add: create_graphviz_writes_eq not_is_edge_line filter_is_edge_line_nodes
      filter_is_edge_line_edges)

subsection \<open>What is written\<close>

lemmas line_distinct =
  header_line_neq_node_line footer_line_neq_node_line node_line_neq_edge_line
  header_line_neq_edge_line footer_line_neq_edge_line
  header_line_neq_node_line [symmetric] footer_line_neq_node_line [symmetric]
  node_line_neq_edge_line [symmetric]
  header_line_neq_edge_line [symmetric] footer_line_neq_edge_line [symmetric]

lemma set_create_graphviz_writes:
  "set (create_graphviz_writes P D n r s) =
     {header_line, footer_line} \<union>
     (\<lambda>p. node_line (pkg_id p) (pkg_name p)) ` set (emitted_packages P D n r s) \<union>
     (\<lambda>d. edge_line (dep_needs_package d) (dep_package d)) `
       {d \<in> set D. dep_needs_package d \<in> pkg_id ` set (emitted_packages P D n r s) \<and>
                    dep_package d \<in> pkg_id ` set (emitted_packages P D n r s)}"
  by (auto simp: create_graphviz_writes_eq)

lemma node_line_in_writes_iff:
  "node_line i nm \<in> set (create_graphviz_writes P D n r s) \<longleftrightarrow>
     (\<exists>p \<in> set (emitted_packages P D n r s). pkg_id p = i \<and> pkg_name p = nm)"
proof
  assume "node_line i nm \<in> set (create_graphviz_writes P D n r s)"
  then have "\<exists>p \<in> set (emitted_packages P D n r s). node_line i nm = node_line (pkg_id p) (pkg_name p)"
    by (auto simp: set_create_graphviz_writes line_distinct)
  then show "\<exists>p \<in> set (emitted_packages P D n r s). pkg_id p = i \<and> pkg_name p = nm"
    using node_line_inj by metis
next
  assume "\<exists>p \<in> set (emitted_packages P D n r s). pkg_id p = i \<and> pkg_name p = nm"
  then show "node_line i nm \<in> set (create_graphviz_writes P D n r s)"
    by (auto simp: set_create_graphviz_writes)
qed

lemma edge_line_in_writes_iff:
  "edge_line a b \<in> set (create_graphviz_writes P D n r s) \<longleftrightarrow>
     (\<exists>d \<in> set D. dep_needs_package d = a \<and> dep_package d = b) \<and>
     a \<in> pkg_id ` set (emitted_packages P D n r s) \<and>
     b \<in> pkg_id ` set (emitted_packages P D n r s)"
proof
  assume "edge_line a b \<in> set (create_graphviz_writes P D n r s)"
  then have "\<exists>d \<in> set D. dep_needs_package d \<in> pkg_id ` set (emitted_packages P D n r s) \<and>
      dep_package d \<in> pkg_id ` set (emitted_packages P D n r s) \<and>
      edge_line a b = edge_line (dep_needs_package d) (dep_package d)"
    by (auto simp: set_create_graphviz_writes line_distinct)
  then obtain d where d: "d \<in> set D"
      "dep_needs_package d \<in> pkg_id ` set (emitted_packages P D n r s)"
      "dep_package d \<in> pkg_id ` set (emitted_packages P D n r s)"
      "edge_line a b = edge_line (dep_needs_package d) (dep_package d)"
    by blast
  from d(4) have "a = dep_needs_package d \<and> b = dep_package d" by (rule edge_line_inj)
  with d(1-3) show "(\<exists>d \<in> set D. dep_needs_package d = a \<and> dep_package d = b) \<and>
     a \<in> pkg_id ` set (emitted_packages P D n r s) \<and>
     b \<in> pkg_id ` set (emitted_packages P D n r s)"
    by auto
next
  assume "(\<exists>d \<in> set D. dep_needs_package d = a \<and> dep_package d = b) \<and>
     a \<in> pkg_id ` set (emitted_packages P D n r s) \<and>
     b \<in> pkg_id ` set (emitted_packages P D n r s)"
  then obtain d where "d \<in> set D" "dep_needs_package d = a" "dep_package d = b"
    and "dep_needs_package d \<in> pkg_id ` set (emitted_packages P D n r s)"
    and "dep_package d \<in> pkg_id ` set (emitted_packages P D n r s)"
    by blast
  then have "edge_line a b \<in> (\<lambda>d. edge_line (dep_needs_package d) (dep_package d)) `
       {d \<in> set D. dep_needs_package d \<in> pkg_id ` set (emitted_packages P D n r s) \<and>
                    dep_package d \<in> pkg_id ` set (emitted_packages P D n r s)}"
    by (intro image_eqI [of _ _ d]) simp_all
  then show "edge_line a b \<in> set (create_graphviz_writes P D n r s)"
    by (simp add: set_create_graphviz_writes)
qed

lemma emitted_ids_eq:
  "pkg_id ` set (emitted_packages P D n r s) =
     {i. \<exists>nm. node_line i nm \<in> set (create_graphviz_writes P D n r s)}"
  by (auto simp: node_line_in_writes_iff)

lemma remaining_packages_eq:
  "remaining_packages P D r s =
     filter (\<lambda>p. (r \<or> s \<longrightarrow> (\<exists>d \<in> set D. dep_package d = pkg_id p \<or> dep_needs_package d = pkg_id p)) \<and>
                 (s \<longrightarrow> (\<exists>d \<in> set D. dep_package d = pkg_id p \<and> dep_needs_package d \<noteq> pkg_id p))) P"
  by (simp add: remaining_packages_def remove_no_edge_step_eq remove_only_selfimport_step_eq)

lemma set_emitted_packages_subset:
  "set (emitted_packages P D n r s) \<subseteq> set (remaining_packages P D r s)"
  unfolding emitted_packages_def truncated_packages_def
  using set_py_slice_upto by (rule subset_trans) (rule set_py_slice_upto)

lemma py_slice_upto_twice:
  "n = None \<or> (\<exists>k. n = Some k \<and> 0 \<le> k) \<Longrightarrow>
     py_slice_upto (py_slice_upto xs n) n = py_slice_upto xs n"
  by (auto simp: py_slice_upto_def)

lemma emitted_packages_nonneg:
  "n = None \<or> (\<exists>k. n = Some k \<and> 0 \<le> k) \<Longrightarrow>
     emitted_packages P D n r s =
       (case n of None \<Rightarrow> remaining_packages P D r s
        | Some k \<Rightarrow> take (nat k) (remaining_packages P D r s))"
  by (auto simp: emitted_packages_def truncated_packages_def py_slice_upto_def)

subsection \<open>Pruning and the fields of a dependency\<close>

lemma self_import_implies_connected:
  "filter (\<lambda>p. ((\<exists>d \<in> set D. dep_package d = pkg_id p \<or> dep_needs_package d = pkg_id p)) \<and>
               (\<exists>d \<in> set D. dep_package d = pkg_id p \<and> dep_needs_package d \<noteq> pkg_id p)) P =
   filter (\<lambda>p. \<exists>d \<in> set D. dep_package d = pkg_id p \<and> dep_needs_package d \<noteq> pkg_id p) P"
  by (rule filter_cong) auto

lemma ex_dep_proj:
  "(\<exists>d \<in> set D. Q (dep_package d) (dep_needs_package d)) \<longleftrightarrow>
   (\<exists>x \<in> set (map (\<lambda>d. (dep_package d, dep_needs_package d)) D). Q (fst x) (snd x))"
  by (induction D) auto

lemma edges_of_proj:
  "map (\<lambda>d. edge_line (dep_needs_package d) (dep_package d))
     (filter (\<lambda>d. dep_needs_package d \<in> S \<and> dep_package d \<in> S) D) =
   map (\<lambda>x. edge_line (snd x) (fst x))
     (filter (\<lambda>x. snd x \<in> S \<and> fst x \<in> S) (map (\<lambda>d. (dep_package d, dep_needs_package d)) D))"
  by (induction D) auto

lemma remaining_packages_proj:
  assumes "map (\<lambda>d. (dep_package d, dep_needs_package d)) D =
           map (\<lambda>d. (dep_package d, dep_needs_package d)) D'"
  shows "remaining_packages P D r s = remaining_packages P D' r s"
proof -
  have inc: "(\<exists>d \<in> set D. dep_package d = i \<or> dep_needs_package d = i) \<longleftrightarrow>
             (\<exists>d \<in> set D'. dep_package d = i \<or> dep_needs_package d = i)" for i
    using ex_dep_proj [of D "\<lambda>a b. a = i \<or> b = i"] ex_dep_proj [of D' "\<lambda>a b. a = i \<or> b = i"]
    by (simp only: assms)
  have out: "(\<exists>d \<in> set D. dep_package d = i \<and> dep_needs_package d \<noteq> i) \<longleftrightarrow>
             (\<exists>d \<in> set D'. dep_package d = i \<and> dep_needs_package d \<noteq> i)" for i
    using ex_dep_proj [of D "\<lambda>a b. a = i \<and> b \<noteq> i"] ex_dep_proj [of D' "\<lambda>a b. a = i \<and> b \<noteq> i"]
    by (simp only: assms)
  show ?thesis
    by (simp only: remaining_packages_eq inc out)
qed

lemma create_graphviz_writes_proj:
  assumes "map (\<lambda>d. (dep_package d, dep_needs_package d)) D =
           map (\<lambda>d. (dep_package d, dep_needs_package d)) D'"
  shows "create_graphviz_writes P D n r s = create_graphviz_writes P D' n r s"
proof -
  have e: "emitted_packages P D n r s = emitted_packages P D' n r s"
    by (simp only: emitted_packages_def truncated_packages_def remaining_packages_proj [OF assms])
  show ?thesis
    by (simp only: create_graphviz_writes_eq e edges_of_proj assms)
qed

subsection \<open>Sets as tables, and what of the surroundings a run shows\<close>

lemma set_pyset_add: "set (pyset_add e x tbl) = insert x (set tbl)"
proof (cases "x \<in> set tbl")
  case True
  then show ?thesis by (auto simp: pyset_add_def)
next
  case False
  have "set (take (slot e x tbl) tbl) \<union> set (drop (slot e x tbl) tbl) = set tbl"
    by (metis append_take_drop_id set_append)
  then have "set (take (slot e x tbl) tbl @ x # drop (slot e x tbl) tbl) = insert x (set tbl)"
    by auto
  with False show ?thesis by (simp add: pyset_add_def)
qed

lemma set_pyset_of: "set (pyset_of e xs tbl) = set xs \<union> set tbl"
  by (induction xs arbitrary: tbl) (auto simp: set_pyset_add)

lemma set_save_nodes_table:
  "set (save_nodes_table e deps tbl) = save_nodes_loop deps (set tbl)"
  by (induction deps arbitrary: tbl) (simp_all add: set_pyset_add)

lemma fst_create_graphviz_run:
  "fst (create_graphviz_run e f P D n r s w) = create_graphviz f P D n r s (fst w)"
  by (cases w)
    (simp add: create_graphviz_run_def create_graphviz_def create_graphviz_writes_def
      emitted_packages_def truncated_packages_def remaining_packages_def
      remove_no_edge_step_def remove_only_selfimport_step_def
      set_save_nodes_table set_pyset_of Let_def split: prod.split)

text \<open>The surroundings do show in a run: the table of \<^verbatim>\<open>save_nodes\<close> and the standard
  output of the example differ between the two surroundings.\<close>

lemma save_nodes_table_depends_on_slot:
  "save_nodes_table env_first example_dependencies [] = [3, 1, 2] \<and>
   save_nodes_table env_last example_dependencies [] = [2, 1, 3]"
  by (simp add: env_first_def env_last_def example_dependencies_def pyset_add_def)

lemma stdout_depends_on_clock:
  "snd (create_graphviz_run env_first ''graphviz.dot'' example_packages example_dependencies
          None True True (Map.empty, [])) \<noteq>
   snd (create_graphviz_run env_last ''graphviz.dot'' example_packages example_dependencies
          None True True (Map.empty, []))"
  by (simp add: create_graphviz_run_def logging_info_def env_first_def env_last_def Let_def
      split: prod.split)

section \<open>Properties of the writer\<close>

text \<open>
  Throughout, a line is one argument of \<^verbatim>\<open>f.write\<close>: the header, a node statement,
  an edge statement or the closing brace. \<open>P\<close> are the packages, \<open>D\<close> the
  dependencies, \<open>n\<close> the node limit, \<open>r\<close> and \<open>s\<close> the flags
  \<^verbatim>\<open>remove_no_edge\<close> and \<^verbatim>\<open>remove_only_selfimport\<close>.
\<close>

text \<open>
  C1. Whatever the packages, the dependencies, the limit and the two flags are, an edge
  line is written only between two ids that each have a node line in the same output:
  both ids are ids of packages the node loop iterated over. Hence a dependency with an
  endpoint outside the final (pruned and truncated) packages is never written.
\<close>

theorem no_dangling_edges:
  "edge_line a b \<in> set (create_graphviz_writes P D n r s) \<Longrightarrow>
     (\<exists>nm. node_line a nm \<in> set (create_graphviz_writes P D n r s)) \<and>
     (\<exists>nm. node_line b nm \<in> set (create_graphviz_writes P D n r s)) \<and>
     a \<in> pkg_id ` set (emitted_packages P D n r s) \<and>
     b \<in> pkg_id ` set (emitted_packages P D n r s)"
proof -
  assume "edge_line a b \<in> set (create_graphviz_writes P D n r s)"
  then have ab: "a \<in> pkg_id ` set (emitted_packages P D n r s)"
    "b \<in> pkg_id ` set (emitted_packages P D n r s)"
    by (simp_all add: edge_line_in_writes_iff)
  then show ?thesis unfolding emitted_ids_eq by simp
qed

theorem no_dangling_edges_witness:
  "edge_line 2 1 \<in>
     set (create_graphviz_writes example_packages example_dependencies None True False) \<and>
   (\<exists>nm. node_line 2 nm \<in>
     set (create_graphviz_writes example_packages example_dependencies None True False)) \<and>
   (\<exists>nm. node_line 1 nm \<in>
     set (create_graphviz_writes example_packages example_dependencies None True False))"
proof -
  have h: "edge_line 2 1 \<in>
      set (create_graphviz_writes example_packages example_dependencies None True False)"
    by code_simp
  show ?thesis using h no_dangling_edges [OF h] by simp
qed

text \<open>
  C2. A dependency of \<open>D\<close> whose two ids both belong to packages that got a node line
  is written with \<^verbatim>\<open>needs_package\<close> first and \<^verbatim>\<open>package\<close> second. The line in the
  other order, \<^verbatim>\<open>package -> needs_package\<close>, is in the output only when \<open>D\<close> itself
  holds the opposite dependency, and the two lines differ unless the dependency is a
  self-dependency.
\<close>

theorem edges_written_reversed:
  "d \<in> set D \<Longrightarrow>
   dep_package d \<in> pkg_id ` set (emitted_packages P D n r s) \<Longrightarrow>
   dep_needs_package d \<in> pkg_id ` set (emitted_packages P D n r s) \<Longrightarrow>
     edge_line (dep_needs_package d) (dep_package d) \<in> set (create_graphviz_writes P D n r s) \<and>
     (edge_line (dep_package d) (dep_needs_package d) \<in> set (create_graphviz_writes P D n r s) \<longrightarrow>
        (\<exists>d' \<in> set D. dep_package d' = dep_needs_package d \<and> dep_needs_package d' = dep_package d)) \<and>
     (dep_package d \<noteq> dep_needs_package d \<longrightarrow>
        edge_line (dep_needs_package d) (dep_package d) \<noteq>
        edge_line (dep_package d) (dep_needs_package d))"
proof -
  assume d: "d \<in> set D"
    and src: "dep_package d \<in> pkg_id ` set (emitted_packages P D n r s)"
    and tgt: "dep_needs_package d \<in> pkg_id ` set (emitted_packages P D n r s)"
  have "edge_line (dep_needs_package d) (dep_package d) \<in> set (create_graphviz_writes P D n r s)"
    unfolding edge_line_in_writes_iff using d src tgt by blast
  moreover have "edge_line (dep_package d) (dep_needs_package d) \<in> set (create_graphviz_writes P D n r s) \<longrightarrow>
        (\<exists>d' \<in> set D. dep_package d' = dep_needs_package d \<and> dep_needs_package d' = dep_package d)"
    unfolding edge_line_in_writes_iff by blast
  moreover have "dep_package d \<noteq> dep_needs_package d \<longrightarrow>
        edge_line (dep_needs_package d) (dep_package d) \<noteq>
        edge_line (dep_package d) (dep_needs_package d)"
    using edge_line_inj by blast
  ultimately show ?thesis by blast
qed

theorem edges_written_reversed_witness:
  "\<lparr>dep_package = 1, dep_needs_package = 2, dep_times = 5\<rparr> \<in> set example_dependencies \<and>
   1 \<in> pkg_id ` set (emitted_packages example_packages example_dependencies None False False) \<and>
   2 \<in> pkg_id ` set (emitted_packages example_packages example_dependencies None False False) \<and>
   edge_line 2 1 \<in> set (create_graphviz_writes example_packages example_dependencies None False False) \<and>
   edge_line 1 2 \<notin> set (create_graphviz_writes example_packages example_dependencies None False False) \<and>
   edge_line 2 1 \<noteq> edge_line 1 2"
proof -
  have h1: "\<lparr>dep_package = 1, dep_needs_package = 2, dep_times = 5\<rparr> \<in> set example_dependencies"
    by (simp add: example_dependencies_def)
  have h2: "dep_package \<lparr>dep_package = 1, dep_needs_package = 2, dep_times = 5\<rparr>
      \<in> pkg_id ` set (emitted_packages example_packages example_dependencies None False False)"
    by code_simp
  have h3: "dep_needs_package \<lparr>dep_package = 1, dep_needs_package = 2, dep_times = 5\<rparr>
      \<in> pkg_id ` set (emitted_packages example_packages example_dependencies None False False)"
    by code_simp
  have no_reverse: "\<not> (\<exists>d' \<in> set example_dependencies. dep_package d' = 2 \<and> dep_needs_package d' = 1)"
    by (simp add: example_dependencies_def)
  from edges_written_reversed [OF h1 h2 h3]
  have c: "edge_line 2 1 \<in>
        set (create_graphviz_writes example_packages example_dependencies None False False) \<and>
      (edge_line 1 2 \<in>
        set (create_graphviz_writes example_packages example_dependencies None False False) \<longrightarrow>
        (\<exists>d' \<in> set example_dependencies. dep_package d' = 2 \<and> dep_needs_package d' = 1)) \<and>
      edge_line 2 1 \<noteq> edge_line 1 2"
    by simp
  have h2': "1 \<in> pkg_id ` set (emitted_packages example_packages example_dependencies None False False)"
    using h2 by simp
  have h3': "2 \<in> pkg_id ` set (emitted_packages example_packages example_dependencies None False False)"
    using h3 by simp
  show ?thesis using h1 h2' h3' no_reverse c by blast
qed

text \<open>
  C3, as stated, for every integer limit. The claim reads the number of node lines as
  the minimum of the number of remaining packages and the limit (no limit when \<open>n\<close> is
  \<^verbatim>\<open>None\<close>). With the limit \<open>-1\<close> and the three example packages, none of which is
  pruned, the writer emits one node line, which is not that minimum.
\<close>

theorem node_count_negative_limit_counterexample:
  "length (remaining_packages example_packages example_dependencies False False) = 3 \<and>
   filter is_node_line
     (create_graphviz_writes example_packages example_dependencies (Some (- 1)) False False) =
     [node_line 1 ''a''] \<and>
   int (length (filter is_node_line
     (create_graphviz_writes example_packages example_dependencies (Some (- 1)) False False))) \<noteq>
   min (int (length (remaining_packages example_packages example_dependencies False False))) (- 1)"
proof -
  have "remaining_packages example_packages example_dependencies False False = example_packages"
    by (simp add: remaining_packages_def remove_no_edge_step_def remove_only_selfimport_step_def)
  moreover have "emitted_packages example_packages example_dependencies (Some (- 1)) False False
      = [\<lparr>pkg_id = 1, pkg_name = ''a''\<rparr>]"
    by code_simp
  ultimately show ?thesis
    by (simp add: filter_is_node_line_writes example_packages_def)
qed

text \<open>
  C3, amended. When the limit is \<^verbatim>\<open>None\<close> or a non-negative integer, the number of
  node lines is the minimum of the number of packages that remain after pruning and the
  limit, and the node lines are those of the first packages that remain, in their order;
  without a limit every remaining package has its node line.
\<close>

theorem node_count_limit:
  "n = None \<or> (\<exists>k. n = Some k \<and> 0 \<le> k) \<Longrightarrow>
     int (length (filter is_node_line (create_graphviz_writes P D n r s))) =
       (case n of None \<Rightarrow> int (length (remaining_packages P D r s))
        | Some k \<Rightarrow> min (int (length (remaining_packages P D r s))) k) \<and>
     filter is_node_line (create_graphviz_writes P D n r s) =
       map (\<lambda>p. node_line (pkg_id p) (pkg_name p))
         (case n of None \<Rightarrow> remaining_packages P D r s
          | Some k \<Rightarrow> take (nat k) (remaining_packages P D r s))"
proof -
  assume n: "n = None \<or> (\<exists>k. n = Some k \<and> 0 \<le> k)"
  have lines: "filter is_node_line (create_graphviz_writes P D n r s) =
       map (\<lambda>p. node_line (pkg_id p) (pkg_name p))
         (case n of None \<Rightarrow> remaining_packages P D r s
          | Some k \<Rightarrow> take (nat k) (remaining_packages P D r s))"
    by (simp only: filter_is_node_line_writes emitted_packages_nonneg [OF n])
  have "int (length (filter is_node_line (create_graphviz_writes P D n r s))) =
       (case n of None \<Rightarrow> int (length (remaining_packages P D r s))
        | Some k \<Rightarrow> min (int (length (remaining_packages P D r s))) k)"
    unfolding lines using n by (auto split: option.splits)
  with lines show ?thesis by blast
qed

theorem node_count_limit_witness:
  "(Some 2 = (None :: int option) \<or> (\<exists>k. Some 2 = Some k \<and> (0::int) \<le> k)) \<and>
   int (length (filter is_node_line
     (create_graphviz_writes example_packages example_dependencies (Some 2) False False))) = 2 \<and>
   filter is_node_line
     (create_graphviz_writes example_packages example_dependencies (Some 2) False False) =
     [node_line 1 ''a'', node_line 2 ''b'']"
proof -
  have h: "Some 2 = (None :: int option) \<or> (\<exists>k. Some 2 = Some k \<and> (0::int) \<le> k)" by simp
  have r: "remaining_packages example_packages example_dependencies False False = example_packages"
    by (simp add: remaining_packages_def remove_no_edge_step_def remove_only_selfimport_step_def)
  have "int (length (filter is_node_line
       (create_graphviz_writes example_packages example_dependencies (Some 2) False False))) =
       min (int (length example_packages)) 2 \<and>
     filter is_node_line
       (create_graphviz_writes example_packages example_dependencies (Some 2) False False) =
       map (\<lambda>p. node_line (pkg_id p) (pkg_name p)) (take (nat 2) example_packages)"
    using node_count_limit [OF h, of example_packages example_dependencies False False]
    unfolding r by simp
  then show ?thesis using h by (simp add: example_packages_def)
qed

text \<open>
  C4. With \<^verbatim>\<open>remove_no_edge\<close> set, every package that remains after pruning, and so
  every id with a node line, is the \<^verbatim>\<open>package\<close> or the \<^verbatim>\<open>needs_package\<close> of some
  dependency of \<open>D\<close> (a self-dependency counts). A package that no dependency mentions
  does not remain and gets no node line. When only this flag is set, the remaining
  packages are exactly the mentioned ones, in their original order.
\<close>

theorem remove_no_edge_keeps_connected:
  "(p \<in> set (remaining_packages P D True s) \<longrightarrow>
      (\<exists>d \<in> set D. dep_package d = pkg_id p \<or> dep_needs_package d = pkg_id p)) \<and>
   (node_line i nm \<in> set (create_graphviz_writes P D n True s) \<longrightarrow>
      (\<exists>d \<in> set D. dep_package d = i \<or> dep_needs_package d = i)) \<and>
   ((\<forall>d \<in> set D. dep_package d \<noteq> pkg_id p \<and> dep_needs_package d \<noteq> pkg_id p) \<longrightarrow>
      p \<notin> set (remaining_packages P D True s) \<and>
      node_line (pkg_id p) nm \<notin> set (create_graphviz_writes P D n True s)) \<and>
   remaining_packages P D True False =
     filter (\<lambda>p. \<exists>d \<in> set D. dep_package d = pkg_id p \<or> dep_needs_package d = pkg_id p) P"
proof -
  have kept: "\<exists>d \<in> set D. dep_package d = pkg_id q \<or> dep_needs_package d = pkg_id q"
    if "q \<in> set (remaining_packages P D True s)" for q
    using that by (simp add: remaining_packages_eq)
  have written: "\<exists>d \<in> set D. dep_package d = j \<or> dep_needs_package d = j"
    if "node_line j nm' \<in> set (create_graphviz_writes P D n True s)" for j nm'
  proof -
    from that obtain q where "q \<in> set (emitted_packages P D n True s)" "pkg_id q = j"
      unfolding node_line_in_writes_iff by blast
    with set_emitted_packages_subset [of P D n True s] kept [of q] show ?thesis by blast
  qed
  have only: "remaining_packages P D True False =
     filter (\<lambda>p. \<exists>d \<in> set D. dep_package d = pkg_id p \<or> dep_needs_package d = pkg_id p) P"
    by (simp add: remaining_packages_eq)
  from kept [of p] written [of i nm] written [of "pkg_id p" nm] only show ?thesis by blast
qed

theorem remove_no_edge_keeps_connected_witness:
  "\<lparr>pkg_id = 3, pkg_name = ''c''\<rparr> \<in>
     set (remaining_packages example_packages
            [\<lparr>dep_package = 3, dep_needs_package = 3, dep_times = 1\<rparr>] True False) \<and>
   node_line 3 ''c'' \<in>
     set (create_graphviz_writes example_packages
            [\<lparr>dep_package = 3, dep_needs_package = 3, dep_times = 1\<rparr>] None True False) \<and>
   (\<exists>d \<in> set [\<lparr>dep_package = 3, dep_needs_package = 3, dep_times = 1\<rparr>].
      dep_package d = 3 \<or> dep_needs_package d = 3) \<and>
   \<not> (\<exists>d \<in> set [\<lparr>dep_package = 3, dep_needs_package = 3, dep_times = 1\<rparr>].
      dep_package d = 1 \<or> dep_needs_package d = 1) \<and>
   \<lparr>pkg_id = 1, pkg_name = ''a''\<rparr> \<notin>
     set (remaining_packages example_packages
            [\<lparr>dep_package = 3, dep_needs_package = 3, dep_times = 1\<rparr>] True False) \<and>
   node_line 1 ''a'' \<notin>
     set (create_graphviz_writes example_packages
            [\<lparr>dep_package = 3, dep_needs_package = 3, dep_times = 1\<rparr>] None True False)"
proof -
  let ?D = "[\<lparr>dep_package = 3, dep_needs_package = 3, dep_times = 1\<rparr>]"
  have h1: "\<lparr>pkg_id = 3, pkg_name = ''c''\<rparr> \<in> set (remaining_packages example_packages ?D True False)"
    by code_simp
  have h2: "node_line 3 ''c'' \<in> set (create_graphviz_writes example_packages ?D None True False)"
    by code_simp
  have h3: "\<forall>d \<in> set ?D. dep_package d \<noteq> pkg_id \<lparr>pkg_id = 1, pkg_name = ''a''\<rparr> \<and>
      dep_needs_package d \<noteq> pkg_id \<lparr>pkg_id = 1, pkg_name = ''a''\<rparr>"
    by simp
  from h2 remove_no_edge_keeps_connected
    [of "\<lparr>pkg_id = 3, pkg_name = ''c''\<rparr>" example_packages ?D False 3 "''c''" None]
  have c1: "\<exists>d \<in> set ?D. dep_package d = 3 \<or> dep_needs_package d = 3"
    by blast
  from h3 remove_no_edge_keeps_connected
    [of "\<lparr>pkg_id = 1, pkg_name = ''a''\<rparr>" example_packages ?D False 3 "''a''" None]
  have c2: "\<lparr>pkg_id = 1, pkg_name = ''a''\<rparr> \<notin> set (remaining_packages example_packages ?D True False) \<and>
     node_line 1 ''a'' \<notin> set (create_graphviz_writes example_packages ?D None True False)"
    by simp
  from h1 h2 h3 c1 c2 show ?thesis by simp
qed

text \<open>
  C5. With \<^verbatim>\<open>remove_only_selfimport\<close> set, every package that remains after pruning,
  and so every id with a node line, is the \<^verbatim>\<open>package\<close> of some dependency of \<open>D\<close>
  whose \<^verbatim>\<open>needs_package\<close> is another id. A package all of whose outgoing dependencies
  are self-dependencies, or that has none (whoever depends on it), does not remain and
  gets no node line.
\<close>

theorem remove_only_selfimport_keeps_importers:
  "(p \<in> set (remaining_packages P D r True) \<longrightarrow>
      (\<exists>d \<in> set D. dep_package d = pkg_id p \<and> dep_needs_package d \<noteq> pkg_id p)) \<and>
   (node_line i nm \<in> set (create_graphviz_writes P D n r True) \<longrightarrow>
      (\<exists>d \<in> set D. dep_package d = i \<and> dep_needs_package d \<noteq> i)) \<and>
   ((\<forall>d \<in> set D. dep_package d = pkg_id p \<longrightarrow> dep_needs_package d = pkg_id p) \<longrightarrow>
      p \<notin> set (remaining_packages P D r True) \<and>
      node_line (pkg_id p) nm \<notin> set (create_graphviz_writes P D n r True))"
proof -
  have kept: "\<exists>d \<in> set D. dep_package d = pkg_id q \<and> dep_needs_package d \<noteq> pkg_id q"
    if "q \<in> set (remaining_packages P D r True)" for q
    using that by (simp add: remaining_packages_eq)
  have written: "\<exists>d \<in> set D. dep_package d = j \<and> dep_needs_package d \<noteq> j"
    if "node_line j nm' \<in> set (create_graphviz_writes P D n r True)" for j nm'
  proof -
    from that obtain q where "q \<in> set (emitted_packages P D n r True)" "pkg_id q = j"
      unfolding node_line_in_writes_iff by blast
    with set_emitted_packages_subset [of P D n r True] kept [of q] show ?thesis by blast
  qed
  from kept [of p] written [of i nm] written [of "pkg_id p" nm] show ?thesis by blast
qed

theorem remove_only_selfimport_keeps_importers_witness:
  "\<lparr>pkg_id = 1, pkg_name = ''a''\<rparr> \<in>
     set (remaining_packages example_packages example_dependencies False True) \<and>
   node_line 1 ''a'' \<in>
     set (create_graphviz_writes example_packages example_dependencies None False True) \<and>
   (\<exists>d \<in> set example_dependencies. dep_package d = 1 \<and> dep_needs_package d \<noteq> 1) \<and>
   \<not> (\<exists>d \<in> set example_dependencies. dep_package d = 2 \<and> dep_needs_package d \<noteq> 2) \<and>
   \<lparr>pkg_id = 2, pkg_name = ''b''\<rparr> \<notin>
     set (remaining_packages example_packages example_dependencies False True) \<and>
   node_line 2 ''b'' \<notin>
     set (create_graphviz_writes example_packages example_dependencies None False True) \<and>
   \<not> (\<exists>d \<in> set example_dependencies. dep_package d = 3 \<and> dep_needs_package d \<noteq> 3) \<and>
   \<lparr>pkg_id = 3, pkg_name = ''c''\<rparr> \<notin>
     set (remaining_packages example_packages example_dependencies False True) \<and>
   node_line 3 ''c'' \<notin>
     set (create_graphviz_writes example_packages example_dependencies None False True)"
proof -
  have h1: "\<lparr>pkg_id = 1, pkg_name = ''a''\<rparr> \<in>
      set (remaining_packages example_packages example_dependencies False True)"
    by code_simp
  have h2: "\<forall>d \<in> set example_dependencies.
      dep_package d = pkg_id \<lparr>pkg_id = 2, pkg_name = ''b''\<rparr> \<longrightarrow>
      dep_needs_package d = pkg_id \<lparr>pkg_id = 2, pkg_name = ''b''\<rparr>"
    by (simp add: example_dependencies_def)
  have h3: "\<forall>d \<in> set example_dependencies.
      dep_package d = pkg_id \<lparr>pkg_id = 3, pkg_name = ''c''\<rparr> \<longrightarrow>
      dep_needs_package d = pkg_id \<lparr>pkg_id = 3, pkg_name = ''c''\<rparr>"
    by (simp add: example_dependencies_def)
  have h4: "node_line 1 ''a'' \<in>
      set (create_graphviz_writes example_packages example_dependencies None False True)"
    by code_simp
  from h4 remove_only_selfimport_keeps_importers
    [of "\<lparr>pkg_id = 1, pkg_name = ''a''\<rparr>" example_packages example_dependencies False 1 "''a''" None]
  have c1: "\<exists>d \<in> set example_dependencies. dep_package d = 1 \<and> dep_needs_package d \<noteq> 1"
    by blast
  from h2 remove_only_selfimport_keeps_importers
    [of "\<lparr>pkg_id = 2, pkg_name = ''b''\<rparr>" example_packages example_dependencies False 2 "''b''" None]
  have c2: "\<lparr>pkg_id = 2, pkg_name = ''b''\<rparr> \<notin>
       set (remaining_packages example_packages example_dependencies False True) \<and>
     node_line 2 ''b'' \<notin>
       set (create_graphviz_writes example_packages example_dependencies None False True)"
    by simp
  from h3 remove_only_selfimport_keeps_importers
    [of "\<lparr>pkg_id = 3, pkg_name = ''c''\<rparr>" example_packages example_dependencies False 3 "''c''" None]
  have c3: "\<lparr>pkg_id = 3, pkg_name = ''c''\<rparr> \<notin>
       set (remaining_packages example_packages example_dependencies False True) \<and>
     node_line 3 ''c'' \<notin>
       set (create_graphviz_writes example_packages example_dependencies None False True)"
    by simp
  from h1 h2 h3 h4 c1 c2 c3 show ?thesis by simp
qed

text \<open>
  C6. On the example of the specification, with no limit and both flags set, only
  package 1 remains, and the writes are the header, the node line of package 1 and the
  closing brace: no edge line.
\<close>

theorem example_both_flags:
  \<open>remaining_packages example_packages example_dependencies True True =
     [\<lparr>pkg_id = 1, pkg_name = ''a''\<rparr>] \<and>
   emitted_packages example_packages example_dependencies None True True =
     [\<lparr>pkg_id = 1, pkg_name = ''a''\<rparr>] \<and>
   create_graphviz_writes example_packages example_dependencies None True True =
     [''digraph python_package_dependencies {\<newline>'',
      ''1 [shape=point, label="a"];\<newline>'',
      ''}''] \<and>
   filter is_edge_line
     (create_graphviz_writes example_packages example_dependencies None True True) = []\<close>
proof -
  have r: "remaining_packages example_packages example_dependencies True True =
     [\<lparr>pkg_id = 1, pkg_name = ''a''\<rparr>]"
    by code_simp
  have e: "emitted_packages example_packages example_dependencies None True True =
     [\<lparr>pkg_id = 1, pkg_name = ''a''\<rparr>]"
    by code_simp
  have w: \<open>create_graphviz_writes example_packages example_dependencies None True True =
     [''digraph python_package_dependencies {\<newline>'',
      ''1 [shape=point, label="a"];\<newline>'',
      ''}'']\<close>
    by code_simp
  have "filter is_edge_line
     (create_graphviz_writes example_packages example_dependencies None True True) = []"
    unfolding filter_is_edge_line_writes e by (simp add: example_dependencies_def)
  with r e w show ?thesis by blast
qed

text \<open>
  C7. With \<^verbatim>\<open>remove_no_edge\<close> unset and \<^verbatim>\<open>remove_only_selfimport\<close> set, the packages
  that remain are those of the reference filter, which in this configuration applies the
  self-import-only rule alone: the original packages with at least one dependency on
  another package, in their original order. The same holds after the cut at line 116.
\<close>

theorem selfimport_pruning_alone:
  "remaining_packages P D False True = graph_filter_spec P D False True \<and>
   remaining_packages P D False True =
     filter (\<lambda>p. \<exists>d \<in> set D. dep_package d = pkg_id p \<and> dep_needs_package d \<noteq> pkg_id p) P \<and>
   truncated_packages P D n False True = py_slice_upto (graph_filter_spec P D False True) n"
proof -
  have code: "remaining_packages P D r True =
     filter (\<lambda>p. \<exists>d \<in> set D. dep_package d = pkg_id p \<and> dep_needs_package d \<noteq> pkg_id p) P" for r
    by (simp add: remaining_packages_eq self_import_implies_connected)
  have spec: "graph_filter_spec P D False True =
     filter (\<lambda>p. \<exists>d \<in> set D. dep_package d = pkg_id p \<and> dep_needs_package d \<noteq> pkg_id p) P"
    by (simp add: graph_filter_spec_def self_import_only_pruning_spec_def)
  from code [of False] spec show ?thesis
    by (simp add: truncated_packages_def)
qed

theorem selfimport_pruning_alone_witness:
  "graph_filter_spec example_packages example_dependencies False True =
     [\<lparr>pkg_id = 1, pkg_name = ''a''\<rparr>] \<and>
   remaining_packages example_packages example_dependencies False True =
     [\<lparr>pkg_id = 1, pkg_name = ''a''\<rparr>] \<and>
   truncated_packages example_packages example_dependencies (Some 5) False True =
     [\<lparr>pkg_id = 1, pkg_name = ''a''\<rparr>]"
proof -
  have s: "graph_filter_spec example_packages example_dependencies False True =
     [\<lparr>pkg_id = 1, pkg_name = ''a''\<rparr>]"
    by code_simp
  show ?thesis
    using selfimport_pruning_alone [of example_packages example_dependencies "Some 5"]
    unfolding s by (simp add: py_slice_upto_def)
qed

text \<open>
  C8. Two runs on the same file name, packages, dependencies, limit and flags leave the
  same bytes in the output file, whatever the surroundings of each run are: the clock,
  the order in which the interpreter keeps the elements of \<^verbatim>\<open>save_nodes\<close> and of
  \<^verbatim>\<open>pkg_ids\<close>, the files and the standard output from before. That content is the
  concatenation of the written lines, and a second run, in other surroundings, on the
  files the first run left, leaves the file as it was.
\<close>

theorem create_graphviz_deterministic:
  "fst (create_graphviz_run e f P D n r s w) f = fst (create_graphviz_run e' f P D n r s w') f \<and>
   fst (create_graphviz_run e f P D n r s w) f =
     Some (concat (create_graphviz_writes P D n r s)) \<and>
   fst (create_graphviz_run e' f P D n r s (create_graphviz_run e f P D n r s w)) f =
     fst (create_graphviz_run e f P D n r s w) f"
proof -
  have content: "fst (create_graphviz_run e1 f P D n r s w1) f =
      Some (concat (create_graphviz_writes P D n r s))" for e1 w1
    by (simp add: fst_create_graphviz_run create_graphviz_def foldl_append_concat)
  from content [of e w] content [of e' w']
    content [of e' "create_graphviz_run e f P D n r s w"]
  show ?thesis by simp
qed

text \<open>
  C9. The edge lines of the output are, in this order, the lines of the dependencies of
  \<open>D\<close> whose two ids have a node line: one line for each such dependency, in the order
  of \<open>D\<close>, repeated when the dependency is repeated. Two dependency lists that agree
  on \<^verbatim>\<open>package\<close> and \<^verbatim>\<open>needs_package\<close> at every position give the same writes and the
  same file, whatever their \<^verbatim>\<open>times\<close> are.
\<close>

theorem edges_in_order_without_weight:
  "filter is_edge_line (create_graphviz_writes P D n r s) =
     map (\<lambda>d. edge_line (dep_needs_package d) (dep_package d))
       (filter (\<lambda>d. dep_needs_package d \<in> pkg_id ` set (emitted_packages P D n r s) \<and>
                     dep_package d \<in> pkg_id ` set (emitted_packages P D n r s)) D) \<and>
   (map (\<lambda>d. (dep_package d, dep_needs_package d)) D =
    map (\<lambda>d. (dep_package d, dep_needs_package d)) D' \<longrightarrow>
      create_graphviz_writes P D n r s = create_graphviz_writes P D' n r s \<and>
      create_graphviz f P D n r s fs = create_graphviz f P D' n r s fs)"
  using create_graphviz_writes_proj [of D D' P n r s]
  by (simp add: filter_is_edge_line_writes create_graphviz_def)

theorem edges_in_order_without_weight_witness:
  "map (\<lambda>d. (dep_package d, dep_needs_package d))
     [\<lparr>dep_package = 1, dep_needs_package = 2, dep_times = 5\<rparr>,
      \<lparr>dep_package = 1, dep_needs_package = 2, dep_times = 7\<rparr>,
      \<lparr>dep_package = 3, dep_needs_package = 3, dep_times = 1\<rparr>] =
   map (\<lambda>d. (dep_package d, dep_needs_package d))
     [\<lparr>dep_package = 1, dep_needs_package = 2, dep_times = 0\<rparr>,
      \<lparr>dep_package = 1, dep_needs_package = 2, dep_times = 0\<rparr>,
      \<lparr>dep_package = 3, dep_needs_package = 3, dep_times = 9\<rparr>] \<and>
   create_graphviz_writes example_packages
     [\<lparr>dep_package = 1, dep_needs_package = 2, dep_times = 5\<rparr>,
      \<lparr>dep_package = 1, dep_needs_package = 2, dep_times = 7\<rparr>,
      \<lparr>dep_package = 3, dep_needs_package = 3, dep_times = 1\<rparr>] None False False =
   create_graphviz_writes example_packages
     [\<lparr>dep_package = 1, dep_needs_package = 2, dep_times = 0\<rparr>,
      \<lparr>dep_package = 1, dep_needs_package = 2, dep_times = 0\<rparr>,
      \<lparr>dep_package = 3, dep_needs_package = 3, dep_times = 9\<rparr>] None False False \<and>
   filter is_edge_line (create_graphviz_writes example_packages
     [\<lparr>dep_package = 1, dep_needs_package = 2, dep_times = 5\<rparr>,
      \<lparr>dep_package = 1, dep_needs_package = 2, dep_times = 7\<rparr>,
      \<lparr>dep_package = 3, dep_needs_package = 3, dep_times = 1\<rparr>] None False False) =
   [edge_line 2 1, edge_line 2 1, edge_line 3 3]"
proof -
  let ?D = "[\<lparr>dep_package = 1, dep_needs_package = 2, dep_times = 5\<rparr>,
      \<lparr>dep_package = 1, dep_needs_package = 2, dep_times = 7\<rparr>,
      \<lparr>dep_package = 3, dep_needs_package = 3, dep_times = 1\<rparr>]"
  let ?D' = "[\<lparr>dep_package = 1, dep_needs_package = 2, dep_times = 0\<rparr>,
      \<lparr>dep_package = 1, dep_needs_package = 2, dep_times = 0\<rparr>,
      \<lparr>dep_package = 3, dep_needs_package = 3, dep_times = 9\<rparr>]"
  have h: "map (\<lambda>d. (dep_package d, dep_needs_package d)) ?D =
           map (\<lambda>d. (dep_package d, dep_needs_package d)) ?D'"
    by simp
  have e: "emitted_packages example_packages ?D None False False = example_packages"
    by (simp add: emitted_packages_def truncated_packages_def remaining_packages_def
        remove_no_edge_step_def remove_only_selfimport_step_def py_slice_upto_def)
  from edges_in_order_without_weight [of example_packages ?D None False False ?D']
  have c: "filter is_edge_line (create_graphviz_writes example_packages ?D None False False) =
     map (\<lambda>d. edge_line (dep_needs_package d) (dep_package d))
       (filter (\<lambda>d. dep_needs_package d \<in> pkg_id ` set example_packages \<and>
                     dep_package d \<in> pkg_id ` set example_packages) ?D) \<and>
     create_graphviz_writes example_packages ?D None False False =
     create_graphviz_writes example_packages ?D' None False False"
    unfolding e using h by blast
  have f: "map (\<lambda>d. edge_line (dep_needs_package d) (dep_package d))
       (filter (\<lambda>d. dep_needs_package d \<in> pkg_id ` set example_packages \<and>
                     dep_package d \<in> pkg_id ` set example_packages) ?D) =
     [edge_line 2 1, edge_line 2 1, edge_line 3 3]"
    by (simp add: example_packages_def)
  from c have c1: "filter is_edge_line (create_graphviz_writes example_packages ?D None False False) =
     map (\<lambda>d. edge_line (dep_needs_package d) (dep_package d))
       (filter (\<lambda>d. dep_needs_package d \<in> pkg_id ` set example_packages \<and>
                     dep_package d \<in> pkg_id ` set example_packages) ?D)"
    and c2: "create_graphviz_writes example_packages ?D None False False =
     create_graphviz_writes example_packages ?D' None False False"
    by blast+
  from c1 f have c3: "filter is_edge_line (create_graphviz_writes example_packages ?D None False False) =
     [edge_line 2 1, edge_line 2 1, edge_line 3 3]"
    by (rule trans)
  from h c2 c3 show ?thesis by blast
qed

text \<open>
  C10. With \<^verbatim>\<open>remove_only_selfimport\<close> set, a self-dependency of \<open>D\<close> whose package
  still has a node line (it survived pruning and the limit) is written as the edge line
  from the id to itself.
\<close>

theorem self_dependency_written:
  "d \<in> set D \<Longrightarrow> dep_package d = dep_needs_package d \<Longrightarrow>
   dep_package d \<in> pkg_id ` set (emitted_packages P D n r True) \<Longrightarrow>
     edge_line (dep_package d) (dep_package d) \<in> set (create_graphviz_writes P D n r True)"
  unfolding edge_line_in_writes_iff by auto

theorem self_dependency_written_witness:
  "\<lparr>dep_package = 1, dep_needs_package = 1, dep_times = 4\<rparr> \<in>
     set [\<lparr>dep_package = 1, dep_needs_package = 2, dep_times = 5\<rparr>,
          \<lparr>dep_package = 1, dep_needs_package = 1, dep_times = 4\<rparr>] \<and>
   1 \<in> pkg_id ` set (emitted_packages example_packages
     [\<lparr>dep_package = 1, dep_needs_package = 2, dep_times = 5\<rparr>,
      \<lparr>dep_package = 1, dep_needs_package = 1, dep_times = 4\<rparr>] (Some 1) False True) \<and>
   edge_line 1 1 \<in> set (create_graphviz_writes example_packages
     [\<lparr>dep_package = 1, dep_needs_package = 2, dep_times = 5\<rparr>,
      \<lparr>dep_package = 1, dep_needs_package = 1, dep_times = 4\<rparr>] (Some 1) False True)"
proof -
  let ?d = "\<lparr>dep_package = 1, dep_needs_package = 1, dep_times = 4\<rparr>"
  let ?D = "[\<lparr>dep_package = 1, dep_needs_package = 2, dep_times = 5\<rparr>, ?d]"
  have h1: "?d \<in> set ?D" by simp
  have h2: "dep_package ?d = dep_needs_package ?d" by simp
  have h3: "dep_package ?d \<in> pkg_id ` set (emitted_packages example_packages ?D (Some 1) False True)"
    by code_simp
  from self_dependency_written [OF h1 h2 h3]
  have "edge_line 1 1 \<in> set (create_graphviz_writes example_packages ?D (Some 1) False True)"
    by simp
  moreover have "1 \<in> pkg_id ` set (emitted_packages example_packages ?D (Some 1) False True)"
    using h3 by simp
  ultimately show ?thesis by simp
qed

end
